theory Spec2Isabelle
  imports Main "HOL-Library.Multiset"
begin

section \<open>The scheduler of package ecs (ecs/ecs.go)\<close>

text \<open>
  The scheduler keeps two registries, \<open>updaters\<close> and \<open>drawers\<close>, each a Go slice of
  entries. A registration appends an entry and sorts the slice again with
  \<open>sort.SliceStable\<close>; \<open>Update\<close> and \<open>Draw\<close> walk the slices front to back and call the
  participants.

  What a participant does inside its \<open>Update\<close> or \<open>Draw\<close> method is code outside the
  scheduler. The model records every such call as an event, in the order the calls are
  made, and keeps the scheduler's fields as the scheduler's own statements leave them.
\<close>

subsection \<open>Values\<close>

text \<open>
  A system is passed as an \<open>interface{}\<close> value. Its identity is either the scheduler's
  own script subsystem (the pointer stored in field \<open>ScriptSystem\<close>) or a value of the
  host program. The two type assertions \<open>system.(Updater)\<close> and \<open>system.(Drawer)\<close>
  depend on the method set of the dynamic type only; the record carries their outcome.
\<close>

datatype 'a handle = ScriptSystem_ptr | Value 'a

record 'a system =
  ident :: "'a handle"
  is_Updater :: bool
  is_Drawer :: bool

text \<open>\<open>SystemOpts\<close>: an image pointer that may be nil, and a priority.\<close>

record 'i SystemOpts =
  opts_Image :: "'i option"
  opts_Priority :: int

record 'a updater =
  Updater :: "'a handle"
  updater_Priority :: int

record ('a, 'i) drawer =
  Drawer :: "'a handle"
  drawer_Priority :: int
  drawer_Image :: "'i option"

text \<open>
  Modelled from the spec: type \<open>Time\<close> (its declaration is not among the sources). The
  clock holds the elapsed time and the delta of the last tick; \<open>prev\<close> is the reading
  of the wall clock at the last advance, or at construction.
\<close>

record Time =
  elapsed :: int
  delta :: int
  prev :: int

text \<open>
  Modelled from the spec: \<open>NewTime\<close> (not among the sources). Nothing has elapsed on a
  new clock. The reading of the wall clock is an input of the model.
\<close>

definition NewTime :: "int \<Rightarrow> Time" where
  "NewTime now = \<lparr>elapsed = 0, delta = 0, prev = now\<rparr>"

text \<open>
  Modelled from the spec: method \<open>Update\<close> of \<open>Time\<close> (not among the sources). Advancing
  sets the delta to the time since the previous advance (since construction, for the
  first one) and adds it to the elapsed time.
\<close>

definition Time_Update :: "int \<Rightarrow> Time \<Rightarrow> Time" where
  "Time_Update now t =
     \<lparr>elapsed = elapsed t + (now - prev t), delta = now - prev t, prev = now\<rparr>"

text \<open>A panic carries its message; the state reached when it was raised is kept with it.\<close>

datatype error = Panic string

type_synonym 's result = "(error \<times> 's) + 's"

fun state_of :: "'s result \<Rightarrow> 's" where
  "state_of (Inl (e, s)) = s"
| "state_of (Inr s) = s"

text \<open>
  Modelled from the spec: a script behaviour (its interfaces are not among the sources).
  It is an \<open>interface{}\<close> value that may have the per-entity update capability, the
  per-entity draw capability, both or neither.
\<close>

record 'a behaviour =
  behaviour_ident :: 'a
  is_EntryUpdater :: bool
  is_EntryDrawer :: bool

text \<open>
  Modelled from the spec: \<open>ScriptOpts\<close> (not among the sources), a priority and an
  optional target image.
\<close>

record 'i ScriptOpts =
  sopts_Image :: "'i option"
  sopts_Priority :: int

text \<open>
  Modelled from the spec: a binding of the script subsystem (not among the sources): the
  query, the behaviour, and the priority and image of the options.
\<close>

record ('q, 'a, 'i) script =
  script_query :: 'q
  script_behaviour :: "'a behaviour"
  script_Priority :: int
  script_Image :: "'i option"

text \<open>
  Modelled from the spec: type \<open>ScriptSystem\<close> (not among the sources). The subsystem
  owns the list of its bindings, in the order they were attached.
\<close>

record ('q, 'a, 'i) ScriptSystem =
  scripts :: "('q, 'a, 'i) script list"

text \<open>Modelled from the spec: \<open>NewScriptSystem\<close> (not among the sources), with no binding.\<close>

definition NewScriptSystem :: "('q, 'a, 'i) ScriptSystem" where
  "NewScriptSystem = \<lparr>scripts = []\<rparr>"

text \<open>
  Modelled from the spec: method \<open>AddScript\<close> of \<open>ScriptSystem\<close> (not among the
  sources). Omitted options are the default ones. Attaching fails with a
  ConfigurationError (the spec does not give the panic's message) when the behaviour has
  neither capability, and appends one binding otherwise.
\<close>

definition ScriptSystem_AddScript ::
  "('q, 'a, 'i) ScriptSystem \<Rightarrow> 'q \<Rightarrow> 'a behaviour \<Rightarrow> 'i ScriptOpts option
     \<Rightarrow> ('q, 'a, 'i) ScriptSystem result" where
  "ScriptSystem_AddScript ss q script opts =
     (let opts = (case opts of None \<Rightarrow> \<lparr>sopts_Image = None, sopts_Priority = 0\<rparr>
                             | Some p \<Rightarrow> p)
      in if \<not> is_EntryUpdater script \<and> \<not> is_EntryDrawer script
         then Inl (Panic ''ConfigurationError'', ss)
         else Inr (ss\<lparr>scripts := scripts ss @
                   [\<lparr>script_query = q, script_behaviour = script,
                     script_Priority = sopts_Priority opts,
                     script_Image = sopts_Image opts\<rparr>]\<rparr>))"

text \<open>
  Modelled from the spec: the method set of \<open>*ScriptSystem\<close> (its methods are not
  among the sources). The subsystem is an
  update participant and a draw participant, so as an \<open>interface{}\<close> value the pointer
  in field \<open>ScriptSystem\<close> passes both type assertions.
\<close>

definition ScriptSystem_system :: "'a system" where
  "ScriptSystem_system = \<lparr>ident = ScriptSystem_ptr, is_Updater = True, is_Drawer = True\<rparr>"

text \<open>
  \<open>ECS\<close> with the embedded \<open>innerECS\<close>. The pointers \<open>Time\<close> and \<open>ScriptSystem\<close> are
  never reassigned after construction, so the records hold what they point to.
\<close>

record ('w, 'q, 'a, 'i) ECS =
  World :: 'w
  Time :: Time
  ScriptSystem :: "('q, 'a, 'i) ScriptSystem"
  updaters :: "'a updater list"
  drawers :: "('a, 'i) drawer list"

subsection \<open>Sorting\<close>

text \<open>
  \<open>sort.SliceStable\<close> of the standard library, by its contract: the slice is sorted by
  the given \<open>less\<close>, and elements of which neither is less than the other keep their
  order. A stable insertion sort is the executable form of that contract; the closure
  of the source reads two entries by index and is a relation on entries here. Go's
  \<open>int\<close> priorities are only compared, never computed with, so they are integers.
\<close>

fun insert_stable :: "('x \<Rightarrow> 'x \<Rightarrow> bool) \<Rightarrow> 'x \<Rightarrow> 'x list \<Rightarrow> 'x list" where
  "insert_stable lessf x [] = [x]"
| "insert_stable lessf x (y # ys) =
     (if lessf y x then y # insert_stable lessf x ys else x # y # ys)"

definition SliceStable :: "('x \<Rightarrow> 'x \<Rightarrow> bool) \<Rightarrow> 'x list \<Rightarrow> 'x list" where
  "SliceStable lessf xs = foldr (insert_stable lessf) xs []"

definition sortUpdaterEntries :: "'a updater list \<Rightarrow> 'a updater list" where
  "sortUpdaterEntries entries =
     SliceStable (\<lambda>ei ej. updater_Priority ei > updater_Priority ej) entries"

definition sortDrawerEntries :: "('a, 'i) drawer list \<Rightarrow> ('a, 'i) drawer list" where
  "sortDrawerEntries entries =
     SliceStable (\<lambda>ei ej. drawer_Priority ei > drawer_Priority ej) entries"

subsection \<open>Registration\<close>

definition addUpdater ::
  "('w, 'q, 'a, 'i) ECS \<Rightarrow> 'a updater \<Rightarrow> ('w, 'q, 'a, 'i) ECS" where
  "addUpdater ecs entry = ecs\<lparr>updaters := sortUpdaterEntries (updaters ecs @ [entry])\<rparr>"

definition addDrawer ::
  "('w, 'q, 'a, 'i) ECS \<Rightarrow> ('a, 'i) drawer \<Rightarrow> ('w, 'q, 'a, 'i) ECS" where
  "addDrawer ecs entry = ecs\<lparr>drawers := sortDrawerEntries (drawers ecs @ [entry])\<rparr>"

text \<open>
  \<open>AddSystem\<close>: a nil \<open>opts\<close> is replaced by the zero options; the two type assertions
  are tried in turn; the panic comes last, with the state as the two branches left it.
\<close>

definition AddSystem ::
  "('w, 'q, 'a, 'i) ECS \<Rightarrow> 'a system \<Rightarrow> 'i SystemOpts option
     \<Rightarrow> ('w, 'q, 'a, 'i) ECS result" where
  "AddSystem ecs system opts =
     (let opts = (case opts of None \<Rightarrow> \<lparr>opts_Image = None, opts_Priority = 0\<rparr>
                             | Some p \<Rightarrow> p);
          flag = False;
          (ecs, flag) =
            (if is_Updater system
             then (addUpdater ecs \<lparr>Updater = ident system,
                                   updater_Priority = opts_Priority opts\<rparr>, True)
             else (ecs, flag));
          (ecs, flag) =
            (if is_Drawer system
             then (addDrawer ecs \<lparr>Drawer = ident system,
                                  drawer_Priority = opts_Priority opts,
                                  drawer_Image = opts_Image opts\<rparr>, True)
             else (ecs, flag))
      in if \<not> flag
         then Inl (Panic ''ECS system should be either Updater or Drawer at least.'', ecs)
         else Inr ecs)"

text \<open>\<open>AddSystems\<close>: one \<open>AddSystem\<close> with nil options per system; a panic ends the loop.\<close>

fun AddSystems ::
  "('w, 'q, 'a, 'i) ECS \<Rightarrow> 'a system list \<Rightarrow> ('w, 'q, 'a, 'i) ECS result" where
  "AddSystems ecs [] = Inr ecs"
| "AddSystems ecs (system # systems) =
     (case AddSystem ecs system None of
        Inl e \<Rightarrow> Inl e
      | Inr ecs' \<Rightarrow> AddSystems ecs' systems)"

text \<open>
  \<open>NewECS\<close>: the clock is created from the wall clock's reading, the registries are
  empty, and the script subsystem is registered with the zero options.
\<close>

definition NewECS :: "int \<Rightarrow> 'w \<Rightarrow> ('w, 'q, 'a, 'i) ECS result" where
  "NewECS now w =
     (let ecs = \<lparr>World = w, Time = NewTime now, ScriptSystem = NewScriptSystem,
                 updaters = [], drawers = []\<rparr>
      in AddSystem ecs ScriptSystem_system
           (Some \<lparr>opts_Image = None, opts_Priority = 0\<rparr>))"

text \<open>\<open>AddScript\<close> hands its arguments to the script subsystem.\<close>

definition AddScript ::
  "('w, 'q, 'a, 'i) ECS \<Rightarrow> 'q \<Rightarrow> 'a behaviour \<Rightarrow> 'i ScriptOpts option
     \<Rightarrow> ('w, 'q, 'a, 'i) ECS result" where
  "AddScript ecs q script opts =
     (case ScriptSystem_AddScript (ScriptSystem ecs) q script opts of
        Inl (e, ss) \<Rightarrow> Inl (e, ecs\<lparr>ScriptSystem := ss\<rparr>)
      | Inr ss \<Rightarrow> Inr (ecs\<lparr>ScriptSystem := ss\<rparr>))"

subsection \<open>Dispatch\<close>

text \<open>
  The calls the scheduler makes: the clock's \<open>Update\<close>, an updater's \<open>Update\<close>, a
  drawer's \<open>Draw\<close> with the image pointer it is given (nil when the caller's screen is
  nil and the entry has no image of its own).
\<close>

datatype ('a, 'i) event =
  Call_Time_Update
| Call_Update "'a handle"
| Call_Draw "'a handle" "'i option"

text \<open>The loop of \<open>Update\<close> over the slice, with the calls made so far.\<close>

fun Update_loop :: "'a updater list \<Rightarrow> ('a, 'i) event list \<Rightarrow> ('a, 'i) event list" where
  "Update_loop [] tr = tr"
| "Update_loop (u # us) tr = Update_loop us (tr @ [Call_Update (Updater u)])"

definition Update ::
  "int \<Rightarrow> ('w, 'q, 'a, 'i) ECS \<Rightarrow> ('w, 'q, 'a, 'i) ECS \<times> ('a, 'i) event list" where
  "Update now ecs =
     (let ecs = ecs\<lparr>Time := Time_Update now (Time ecs)\<rparr>;
          tr = [Call_Time_Update]
      in (ecs, Update_loop (updaters ecs) tr))"

text \<open>The loop of \<open>Draw\<close>: an entry with an image of its own is drawn to it.\<close>

fun Draw_loop ::
  "('a, 'i) drawer list \<Rightarrow> 'i option \<Rightarrow> ('a, 'i) event list \<Rightarrow> ('a, 'i) event list" where
  "Draw_loop [] screen tr = tr"
| "Draw_loop (d # ds) screen tr =
     (if drawer_Image d \<noteq> None
      then Draw_loop ds screen (tr @ [Call_Draw (Drawer d) (drawer_Image d)])
      else Draw_loop ds screen (tr @ [Call_Draw (Drawer d) screen]))"

definition Draw ::
  "('w, 'q, 'a, 'i) ECS \<Rightarrow> 'i option \<Rightarrow> ('w, 'q, 'a, 'i) ECS \<times> ('a, 'i) event list" where
  "Draw ecs screen = (ecs, Draw_loop (drawers ecs) screen [])"

subsection \<open>Host programs\<close>

text \<open>
  A host program is a sequence of calls on one scheduler. A call that panics leaves the
  scheduler as it was when the panic was raised; the run goes on from there, which covers
  a host that recovers as well as one whose calls never panic.
\<close>

datatype ('q, 'a, 'i) call =
  Do_AddSystem "'a system" "'i SystemOpts option"
| Do_AddScript 'q "'a behaviour" "'i ScriptOpts option"
| Do_Update int
| Do_Draw "'i option"

fun do_call :: "('w, 'q, 'a, 'i) ECS \<Rightarrow> ('q, 'a, 'i) call \<Rightarrow> ('w, 'q, 'a, 'i) ECS" where
  "do_call ecs (Do_AddSystem system opts) = state_of (AddSystem ecs system opts)"
| "do_call ecs (Do_AddScript q script opts) = state_of (AddScript ecs q script opts)"
| "do_call ecs (Do_Update now) = fst (Update now ecs)"
| "do_call ecs (Do_Draw screen) = fst (Draw ecs screen)"

definition run :: "('w, 'q, 'a, 'i) ECS \<Rightarrow> ('q, 'a, 'i) call list \<Rightarrow> ('w, 'q, 'a, 'i) ECS" where
  "run ecs cs = foldl do_call ecs cs"

text \<open>The registrations of a program, in the order they are made.\<close>

fun registrations :: "('q, 'a, 'i) call list \<Rightarrow> ('a system \<times> 'i SystemOpts option) list" where
  "registrations [] = []"
| "registrations (Do_AddSystem system opts # cs) = (system, opts) # registrations cs"
| "registrations (c # cs) = registrations cs"

text \<open>
  The entry a registration stands for in either registry, and the entries of a list of
  registrations, in registration order: one per registration whose system has the
  capability.
\<close>

definition updater_entry :: "'a system \<times> 'i SystemOpts option \<Rightarrow> 'a updater" where
  "updater_entry r =
     \<lparr>Updater = ident (fst r),
      updater_Priority = (case snd r of None \<Rightarrow> 0 | Some p \<Rightarrow> opts_Priority p)\<rparr>"

definition drawer_entry :: "'a system \<times> 'i SystemOpts option \<Rightarrow> ('a, 'i) drawer" where
  "drawer_entry r =
     \<lparr>Drawer = ident (fst r),
      drawer_Priority = (case snd r of None \<Rightarrow> 0 | Some p \<Rightarrow> opts_Priority p),
      drawer_Image = (case snd r of None \<Rightarrow> None | Some p \<Rightarrow> opts_Image p)\<rparr>"

definition updater_entries :: "('a system \<times> 'i SystemOpts option) list \<Rightarrow> 'a updater list" where
  "updater_entries rs = map updater_entry (filter (\<lambda>r. is_Updater (fst r)) rs)"

definition drawer_entries :: "('a system \<times> 'i SystemOpts option) list \<Rightarrow> ('a, 'i) drawer list" where
  "drawer_entries rs = map drawer_entry (filter (\<lambda>r. is_Drawer (fst r)) rs)"

subsection \<open>Counting calls\<close>



subsection \<open>A small host program\<close>

text \<open>
  System A can only update, system B can update and draw, system N can do neither. The
  two programs make the same registrations (A with priority 10, B with priority 5 and an
  image of its own) and differ in everything else.
\<close>

definition ex_ecs :: "(unit, unit, nat, nat) ECS" where
  "ex_ecs = state_of (NewECS 0 ())"

definition ex_A :: "nat system" where
  "ex_A = \<lparr>ident = Value 1, is_Updater = True, is_Drawer = False\<rparr>"

definition ex_B :: "nat system" where
  "ex_B = \<lparr>ident = Value 2, is_Updater = True, is_Drawer = True\<rparr>"

definition ex_N :: "nat system" where
  "ex_N = \<lparr>ident = Value 3, is_Updater = False, is_Drawer = False\<rparr>"

definition ex_program :: "(unit, nat, nat) call list" where
  "ex_program =
     [Do_AddSystem ex_A (Some \<lparr>opts_Image = None, opts_Priority = 10\<rparr>),
      Do_Update 16,
      Do_AddSystem ex_B (Some \<lparr>opts_Image = Some 1, opts_Priority = 5\<rparr>),
      Do_Draw None]"


section \<open>Properties\<close>

subsection \<open>The stable sort\<close>

text \<open>
  With a comparison "higher priority first" on an integer key, the insertion sort above
  is the library's stable sort on the negated key.
\<close>

lemma insert_stable_insort_key:
  fixes f :: "'x \<Rightarrow> int"
  shows "insert_stable (\<lambda>a b. f a > f b) x ys = insort_key (\<lambda>e. - f e) x ys"
  by (induction ys) auto

lemma SliceStable_sort_key:
  fixes f :: "'x \<Rightarrow> int"
  shows "SliceStable (\<lambda>a b. f a > f b) xs = sort_key (\<lambda>e. - f e) xs"
  by (induction xs) (simp_all add: SliceStable_def insert_stable_insort_key)

lemma SliceStable_mset:
  fixes f :: "'x \<Rightarrow> int"
  shows "mset (SliceStable (\<lambda>a b. f a > f b) xs) = mset xs"
  by (simp add: SliceStable_sort_key)

lemma SliceStable_sorted:
  fixes f :: "'x \<Rightarrow> int"
  shows "sorted_wrt (\<ge>) (map f (SliceStable (\<lambda>a b. f a > f b) xs))"
proof -
  have "sorted (map (\<lambda>e. - f e) (sort_key (\<lambda>e. - f e) xs))"
    by (rule sorted_sort_key)
  then show ?thesis
    by (simp add: SliceStable_sort_key sorted_wrt_map)
qed

lemma SliceStable_stable:
  fixes f :: "'x \<Rightarrow> int"
  shows "filter (\<lambda>y. f y = k) (SliceStable (\<lambda>a b. f a > f b) xs) = filter (\<lambda>y. f y = k) xs"
  using sort_key_stable [of "\<lambda>e. - f e" "- k" xs] by (simp add: SliceStable_sort_key)

lemma SliceStable_sorted_id:
  fixes f :: "'x \<Rightarrow> int"
  assumes "sorted_wrt (\<ge>) (map f xs)"
  shows "SliceStable (\<lambda>a b. f a > f b) xs = xs"
proof -
  from assms have "sorted (map (\<lambda>e. - f e) xs)"
    by (simp add: sorted_wrt_map)
  then show ?thesis
    by (simp add: SliceStable_sort_key sort_key_id_if_sorted)
qed

text \<open>
  The contract fixes the result: a permutation of the slice that is sorted by priority,
  highest first, and keeps the order within every priority is what the insertion sort
  returns, whichever algorithm the library runs.
\<close>

lemma SliceStable_unique:
  fixes f :: "'x \<Rightarrow> int"
  assumes perm: "mset ys = mset xs"
    and srt: "sorted_wrt (\<ge>) (map f ys)"
    and stable: "\<And>k. filter (\<lambda>x. f x = k) ys = filter (\<lambda>x. f x = k) xs"
  shows "SliceStable (\<lambda>a b. f a > f b) xs = ys"
proof -
  have "sort_key (\<lambda>e. - f e) xs = ys"
  proof (rule properties_for_sort_key)
    show "mset ys = mset xs" by (rule perm)
    show "sorted (map (\<lambda>e. - f e) ys)"
      using srt by (simp add: sorted_wrt_map)
    fix k
    show "filter (\<lambda>x. - f k = - f x) ys = filter (\<lambda>x. - f k = - f x) xs"
      using stable [of "f k"] by (simp add: eq_commute [of "f k"])
  qed
  then show ?thesis
    by (simp add: SliceStable_sort_key)
qed

text \<open>Sorting again after appending gives the stable sort of all that was appended.\<close>

lemma sort_key_absorb:
  "sort_key f (sort_key f xs @ ys) = sort_key f (xs @ ys)"
proof (rule properties_for_sort_key [symmetric])
  show "mset (sort_key f (sort_key f xs @ ys)) = mset (xs @ ys)"
    by simp
  show "sorted (map f (sort_key f (sort_key f xs @ ys)))"
    by simp
  fix k
  have "filter (\<lambda>x. f x = f k) (sort_key f (sort_key f xs @ ys)) =
        filter (\<lambda>x. f x = f k) (xs @ ys)"
    by (simp add: sort_key_stable)
  then show "filter (\<lambda>x. f k = f x) (sort_key f (sort_key f xs @ ys)) =
        filter (\<lambda>x. f k = f x) (xs @ ys)"
    by (simp add: eq_commute [of "f k"])
qed

lemma SliceStable_absorb:
  fixes f :: "'x \<Rightarrow> int"
  shows "SliceStable (\<lambda>a b. f a > f b) (SliceStable (\<lambda>a b. f a > f b) xs @ ys) =
         SliceStable (\<lambda>a b. f a > f b) (xs @ ys)"
  by (simp add: SliceStable_sort_key sort_key_absorb)

text \<open>
  Appending one entry to a sorted slice and sorting: the entries of at least the new
  priority stay in front of the new entry, those of lower priority behind it.
\<close>

lemma insort_key_front:
  fixes g :: "'x \<Rightarrow> int"
  shows "\<forall>y\<in>set ys. g x \<le> g y \<Longrightarrow> insort_key g x ys = x # ys"
  by (cases ys) auto

lemma sort_key_snoc_sorted:
  fixes f :: "'x \<Rightarrow> int"
  assumes "sorted_wrt (\<ge>) (map f xs)"
  shows "sort_key (\<lambda>e. - f e) (xs @ [e]) =
           filter (\<lambda>x. f x \<ge> f e) xs @ [e] @ filter (\<lambda>x. f x < f e) xs"
  using assms
proof (induction xs)
  case Nil
  then show ?case by simp
next
  case (Cons x xs)
  let ?g = "\<lambda>e. - f e"
  from Cons.prems have le: "\<forall>y\<in>set xs. f y \<le> f x" and srt: "sorted_wrt (\<ge>) (map f xs)"
    by auto
  have step: "sort_key ?g ((x # xs) @ [e]) =
      insort_key ?g x (filter (\<lambda>y. f y \<ge> f e) xs @ [e] @ filter (\<lambda>y. f y < f e) xs)"
    using Cons.IH [OF srt] by simp
  show ?case
  proof (cases "f x \<ge> f e")
    case True
    with le have "\<forall>y\<in>set (filter (\<lambda>y. f y \<ge> f e) xs @ [e] @ filter (\<lambda>y. f y < f e) xs).
        ?g x \<le> ?g y"
      by auto
    then have "insort_key ?g x (filter (\<lambda>y. f y \<ge> f e) xs @ [e] @ filter (\<lambda>y. f y < f e) xs)
        = x # filter (\<lambda>y. f y \<ge> f e) xs @ [e] @ filter (\<lambda>y. f y < f e) xs"
      by (rule insort_key_front)
    with step True show ?thesis by simp
  next
    case False
    with le have all_lt: "\<forall>y\<in>set xs. f y < f e" by auto
    then have none: "filter (\<lambda>y. f y \<ge> f e) xs = []" and all: "filter (\<lambda>y. f y < f e) xs = xs"
      by (auto simp: filter_empty_conv filter_id_conv)
    from le have "insort_key ?g x xs = x # xs"
      by (intro insort_key_front) auto
    with step False none all show ?thesis by simp
  qed
qed

lemma sorted_split_at:
  fixes f :: "'x \<Rightarrow> int"
  assumes "sorted_wrt (\<ge>) (map f xs)"
  shows "filter (\<lambda>x. f x \<ge> k) xs @ filter (\<lambda>x. f x < k) xs = xs"
  using assms
proof (induction xs)
  case Nil
  then show ?case by simp
next
  case (Cons x xs)
  then have le: "\<forall>y\<in>set xs. f y \<le> f x" and IH: "filter (\<lambda>x. f x \<ge> k) xs @ filter (\<lambda>x. f x < k) xs = xs"
    by auto
  show ?case
  proof (cases "f x \<ge> k")
    case True
    with IH show ?thesis by simp
  next
    case False
    with le have "filter (\<lambda>x. f x \<ge> k) xs = []"
      by (auto simp: filter_empty_conv)
    with False IH show ?thesis by simp
  qed
qed

subsection \<open>What each operation does to the scheduler's fields\<close>

lemma AddSystem_updaters:
  "updaters (state_of (AddSystem ecs s opts)) =
     (if is_Updater s then sortUpdaterEntries (updaters ecs @ [updater_entry (s, opts)])
      else updaters ecs)"
  by (cases opts)
    (simp_all add: AddSystem_def Let_def addUpdater_def addDrawer_def updater_entry_def)

lemma AddSystem_drawers:
  "drawers (state_of (AddSystem ecs s opts)) =
     (if is_Drawer s then sortDrawerEntries (drawers ecs @ [drawer_entry (s, opts)])
      else drawers ecs)"
  by (cases opts)
    (simp_all add: AddSystem_def Let_def addUpdater_def addDrawer_def drawer_entry_def)

lemma AddSystem_returns:
  "is_Updater s \<or> is_Drawer s \<Longrightarrow> AddSystem ecs s opts = Inr (state_of (AddSystem ecs s opts))"
  by (auto simp: AddSystem_def Let_def)

lemma AddScript_registries:
  "updaters (state_of (AddScript ecs q b opts)) = updaters ecs"
  "drawers (state_of (AddScript ecs q b opts)) = drawers ecs"
  by (simp_all add: AddScript_def split: sum.splits prod.splits)

lemma Update_loop_trace:
  "Update_loop us tr = tr @ map (\<lambda>u. Call_Update (Updater u)) us"
  by (induction us arbitrary: tr) simp_all

lemma Draw_loop_trace:
  "Draw_loop ds screen tr =
     tr @ map (\<lambda>d. Call_Draw (Drawer d)
                 (case drawer_Image d of Some i \<Rightarrow> Some i | None \<Rightarrow> screen)) ds"
  by (induction ds arbitrary: tr) auto

lemma Update_registries:
  "updaters (fst (Update now ecs)) = updaters ecs"
  "drawers (fst (Update now ecs)) = drawers ecs"
  by (simp_all add: Update_def)

lemma Update_trace:
  "snd (Update now ecs) = Call_Time_Update # map (\<lambda>u. Call_Update (Updater u)) (updaters ecs)"
  by (simp add: Update_def Update_loop_trace)

lemma Draw_trace:
  "snd (Draw ecs screen) =
     map (\<lambda>d. Call_Draw (Drawer d)
            (case drawer_Image d of Some i \<Rightarrow> Some i | None \<Rightarrow> screen)) (drawers ecs)"
  by (simp add: Draw_def Draw_loop_trace)

subsection \<open>The registries after a host program\<close>

lemma registrations_Cons:
  "registrations (c # cs) = registrations [c] @ registrations cs"
  by (cases c) simp_all

lemma do_call_updaters:
  "updaters (do_call ecs c) =
     foldl (\<lambda>us e. sortUpdaterEntries (us @ [e])) (updaters ecs)
       (updater_entries (registrations [c]))"
  by (cases c)
    (simp_all add: AddSystem_updaters AddScript_registries Update_registries Draw_def
       updater_entries_def)

lemma do_call_drawers:
  "drawers (do_call ecs c) =
     foldl (\<lambda>ds e. sortDrawerEntries (ds @ [e])) (drawers ecs)
       (drawer_entries (registrations [c]))"
  by (cases c)
    (simp_all add: AddSystem_drawers AddScript_registries Update_registries Draw_def
       drawer_entries_def)

lemma run_updaters_foldl:
  "updaters (run ecs cs) =
     foldl (\<lambda>us e. sortUpdaterEntries (us @ [e])) (updaters ecs)
       (updater_entries (registrations cs))"
proof (induction cs arbitrary: ecs)
  case Nil
  then show ?case by (simp add: run_def updater_entries_def)
next
  case (Cons c cs)
  from Cons [of "do_call ecs c"] show ?case
    by (simp add: run_def do_call_updaters updater_entries_def registrations_Cons [of c cs])
qed

lemma run_drawers_foldl:
  "drawers (run ecs cs) =
     foldl (\<lambda>ds e. sortDrawerEntries (ds @ [e])) (drawers ecs)
       (drawer_entries (registrations cs))"
proof (induction cs arbitrary: ecs)
  case Nil
  then show ?case by (simp add: run_def drawer_entries_def)
next
  case (Cons c cs)
  from Cons [of "do_call ecs c"] show ?case
    by (simp add: run_def do_call_drawers drawer_entries_def registrations_Cons [of c cs])
qed

text \<open>
  Append-and-sort, entry by entry, is one stable sort of the old slice followed by the
  new entries; on a sorted slice nothing else happens.
\<close>

lemma foldl_append_sort:
  fixes f :: "'x \<Rightarrow> int"
  assumes "sorted_wrt (\<ge>) (map f xs)"
  shows "foldl (\<lambda>ys e. SliceStable (\<lambda>a b. f a > f b) (ys @ [e])) xs es =
         SliceStable (\<lambda>a b. f a > f b) (xs @ es)"
  using assms
proof (induction es arbitrary: xs)
  case Nil
  then show ?case by (simp add: SliceStable_sorted_id)
next
  case (Cons e es)
  let ?S = "SliceStable (\<lambda>a b. f a > f b)"
  have "foldl (\<lambda>ys e. ?S (ys @ [e])) xs (e # es) = foldl (\<lambda>ys e. ?S (ys @ [e])) (?S (xs @ [e])) es"
    by simp
  also have "\<dots> = ?S (?S (xs @ [e]) @ es)"
    by (rule Cons.IH) (rule SliceStable_sorted)
  also have "\<dots> = ?S ((xs @ [e]) @ es)"
    by (rule SliceStable_absorb)
  finally show ?case by simp
qed

lemma run_updaters:
  assumes "sorted_wrt (\<ge>) (map updater_Priority (updaters ecs))"
  shows "updaters (run ecs cs) =
         sortUpdaterEntries (updaters ecs @ updater_entries (registrations cs))"
  using foldl_append_sort [OF assms, of "updater_entries (registrations cs)"]
  by (simp add: run_updaters_foldl sortUpdaterEntries_def)

lemma run_drawers:
  assumes "sorted_wrt (\<ge>) (map drawer_Priority (drawers ecs))"
  shows "drawers (run ecs cs) =
         sortDrawerEntries (drawers ecs @ drawer_entries (registrations cs))"
  using foldl_append_sort [OF assms, of "drawer_entries (registrations cs)"]
  by (simp add: run_drawers_foldl sortDrawerEntries_def)

text \<open>\<open>AddSystems\<close> on systems that all have a capability is a program of registrations.\<close>

lemma AddSystems_run:
  assumes "\<forall>s\<in>set systems. is_Updater s \<or> is_Drawer s"
  shows "AddSystems ecs systems = Inr (run ecs (map (\<lambda>s. Do_AddSystem s None) systems))"
  using assms
proof (induction systems arbitrary: ecs)
  case Nil
  then show ?case by (simp add: run_def)
next
  case (Cons s systems)
  then have "AddSystem ecs s None = Inr (state_of (AddSystem ecs s None))"
    by (intro AddSystem_returns) simp
  moreover from Cons have "AddSystems (state_of (AddSystem ecs s None)) systems =
      Inr (run (state_of (AddSystem ecs s None)) (map (\<lambda>s. Do_AddSystem s None) systems))"
    by simp
  ultimately show ?case
    by (cases "AddSystem ecs s None") (simp_all add: run_def)
qed

text \<open>The scheduler as \<open>NewECS\<close> returns it.\<close>

lemma NewECS_returns:
  "NewECS now w =
     Inr \<lparr>World = w, Time = NewTime now, ScriptSystem = NewScriptSystem,
          updaters = [\<lparr>Updater = ScriptSystem_ptr, updater_Priority = 0\<rparr>],
          drawers = [\<lparr>Drawer = ScriptSystem_ptr, drawer_Priority = 0, drawer_Image = None\<rparr>]\<rparr>"
  by (simp add: NewECS_def AddSystem_def ScriptSystem_system_def addUpdater_def addDrawer_def
      sortUpdaterEntries_def sortDrawerEntries_def SliceStable_def)

subsection \<open>Entries are never merged\<close>









subsection \<open>The example program, run\<close>

lemma ex_ecs_value:
  "ex_ecs =
     \<lparr>World = (), Time = NewTime 0, ScriptSystem = NewScriptSystem,
      updaters = [\<lparr>Updater = ScriptSystem_ptr, updater_Priority = 0\<rparr>],
      drawers = [\<lparr>Drawer = ScriptSystem_ptr, drawer_Priority = 0, drawer_Image = None\<rparr>]\<rparr>"
  by (simp add: ex_ecs_def NewECS_returns)

lemma ex_program_updaters:
  "updaters (run ex_ecs ex_program) =
     [\<lparr>Updater = Value 1, updater_Priority = 10\<rparr>,
      \<lparr>Updater = Value 2, updater_Priority = 5\<rparr>,
      \<lparr>Updater = ScriptSystem_ptr, updater_Priority = 0\<rparr>]"
  by (simp add: run_updaters_foldl ex_ecs_value ex_program_def ex_A_def ex_B_def
      updater_entries_def updater_entry_def sortUpdaterEntries_def SliceStable_def)

lemma ex_program_drawers:
  "drawers (run ex_ecs ex_program) =
     [\<lparr>Drawer = Value 2, drawer_Priority = 5, drawer_Image = Some 1\<rparr>,
      \<lparr>Drawer = ScriptSystem_ptr, drawer_Priority = 0, drawer_Image = None\<rparr>]"
  by (simp add: run_drawers_foldl ex_ecs_value ex_program_def ex_A_def ex_B_def
      drawer_entries_def drawer_entry_def sortDrawerEntries_def SliceStable_def)

lemma ex_program_tick:
  "snd (Update 32 (run ex_ecs ex_program)) =
     [Call_Time_Update, Call_Update (Value 1), Call_Update (Value 2),
      Call_Update ScriptSystem_ptr]"
  by (simp add: Update_trace ex_program_updaters)

lemma ex_program_frame:
  "snd (Draw (run ex_ecs ex_program) (Some 0)) =
     [Call_Draw (Value 2) (Some 1), Call_Draw ScriptSystem_ptr (Some 0)]"
  by (simp add: Draw_trace ex_program_drawers)

section \<open>The claims\<close>


text \<open>
  C2. \<open>AddSystem\<close> panics exactly when the system is neither an \<open>Updater\<close> nor a
  \<open>Drawer\<close>; the panic carries the message of the source, and the scheduler it leaves
  behind has the update registry and the draw registry (indeed every field) unchanged.
\<close>

theorem AddSystem_panics_iff_no_capability:
  "(isl (AddSystem ecs s opts) \<longleftrightarrow> \<not> is_Updater s \<and> \<not> is_Drawer s) \<and>
   (\<forall>e st. AddSystem ecs s opts = Inl (e, st) \<longrightarrow>
      e = Panic ''ECS system should be either Updater or Drawer at least.'' \<and>
      updaters st = updaters ecs \<and> drawers st = drawers ecs \<and> st = ecs)"
  by (auto simp: AddSystem_def Let_def split: if_splits)

theorem AddSystem_panics_iff_no_capability_witness:
  "AddSystem ex_ecs ex_N (Some \<lparr>opts_Image = Some 1, opts_Priority = 5\<rparr>) =
   Inl (Panic ''ECS system should be either Updater or Drawer at least.'', ex_ecs)"
  using AddSystem_panics_iff_no_capability
    [of ex_ecs ex_N "Some \<lparr>opts_Image = Some 1, opts_Priority = 5\<rparr>"]
  by (auto simp: isl_def ex_N_def)

text \<open>
  C3. \<open>Update\<close> advances the clock once: the clock after the call is the clock before
  it, advanced one time; the clock's \<open>Update\<close> is the first call of the tick, before
  every updater's, and it occurs exactly once among the calls of the tick.
\<close>

theorem Update_advances_clock_first:
  "Time (fst (Update now ecs)) = Time_Update now (Time ecs) \<and>
   snd (Update now ecs) =
     Call_Time_Update # map (\<lambda>u. Call_Update (Updater u)) (updaters ecs) \<and>
   count_list (snd (Update now ecs)) Call_Time_Update = 1"
proof -
  have "Call_Time_Update \<notin> set (map (\<lambda>u. Call_Update (Updater u)) (updaters ecs))"
    by auto
  then have "count_list (map (\<lambda>u. Call_Update (Updater u)) (updaters ecs)) Call_Time_Update = 0"
    by (simp only: count_list_0_iff)
  then show ?thesis
    by (simp add: Update_trace) (simp add: Update_def)
qed


text \<open>
  C5. For a system that is both an \<open>Updater\<close> and a \<open>Drawer\<close>, \<open>AddSystem\<close> returns,
  and each registry has gained exactly one entry: both name the system and carry the
  priority of the options (0 for nil options), the drawer's entry also the image.
\<close>

theorem AddSystem_both_registries:
  assumes "is_Updater s" and "is_Drawer s"
  shows "\<exists>ecs'. AddSystem ecs s opts = Inr ecs' \<and>
           mset (updaters ecs') =
             add_mset \<lparr>Updater = ident s,
                       updater_Priority = (case opts of None \<Rightarrow> 0 | Some p \<Rightarrow> opts_Priority p)\<rparr>
               (mset (updaters ecs)) \<and>
           mset (drawers ecs') =
             add_mset \<lparr>Drawer = ident s,
                       drawer_Priority = (case opts of None \<Rightarrow> 0 | Some p \<Rightarrow> opts_Priority p),
                       drawer_Image = (case opts of None \<Rightarrow> None | Some p \<Rightarrow> opts_Image p)\<rparr>
               (mset (drawers ecs)) \<and>
           length (updaters ecs') = Suc (length (updaters ecs)) \<and>
           length (drawers ecs') = Suc (length (drawers ecs))"
proof -
  let ?st = "state_of (AddSystem ecs s opts)"
  from assms have ret: "AddSystem ecs s opts = Inr ?st"
    by (intro AddSystem_returns) simp
  have u: "mset (updaters ?st) = add_mset (updater_entry (s, opts)) (mset (updaters ecs))"
    using assms by (simp add: AddSystem_updaters sortUpdaterEntries_def SliceStable_mset)
  have d: "mset (drawers ?st) = add_mset (drawer_entry (s, opts)) (mset (drawers ecs))"
    using assms by (simp add: AddSystem_drawers sortDrawerEntries_def SliceStable_mset)
  from u have lu: "length (updaters ?st) = Suc (length (updaters ecs))"
    by (metis size_mset size_add_mset)
  from d have ld: "length (drawers ?st) = Suc (length (drawers ecs))"
    by (metis size_mset size_add_mset)
  show ?thesis
  proof (intro exI conjI)
    show "AddSystem ecs s opts = Inr ?st" by (rule ret)
  qed (use u d lu ld in \<open>simp_all add: updater_entry_def drawer_entry_def\<close>)
qed

theorem AddSystem_both_registries_witness:
  "is_Updater ex_B \<and> is_Drawer ex_B \<and>
   (\<exists>ecs'. AddSystem ex_ecs ex_B (Some \<lparr>opts_Image = Some 1, opts_Priority = 5\<rparr>) = Inr ecs' \<and>
      mset (updaters ecs') =
        {#\<lparr>Updater = Value 2, updater_Priority = 5\<rparr>,
          \<lparr>Updater = ScriptSystem_ptr, updater_Priority = 0\<rparr>#} \<and>
      mset (drawers ecs') =
        {#\<lparr>Drawer = Value 2, drawer_Priority = 5, drawer_Image = Some 1\<rparr>,
          \<lparr>Drawer = ScriptSystem_ptr, drawer_Priority = 0, drawer_Image = None\<rparr>#} \<and>
      length (updaters ecs') = 2 \<and> length (drawers ecs') = 2)"
proof -
  have u: "is_Updater ex_B" and d: "is_Drawer ex_B"
    by (simp_all add: ex_B_def)
  from AddSystem_both_registries
    [OF u d, of ex_ecs "Some \<lparr>opts_Image = Some 1, opts_Priority = 5\<rparr>"]
  show ?thesis
    by (simp add: u d) (simp add: ex_B_def ex_ecs_value numeral_2_eq_2)
qed

text \<open>
  C6. \<open>NewECS\<close> returns a scheduler with the given world, a fresh clock, a fresh script
  subsystem, and registries that hold one entry each: the script subsystem, with
  priority 0 and, in the draw registry, no image. Whatever is registered later, the
  script subsystem's entry stays the first of the entries of priority 0, in both
  registries.
\<close>

theorem NewECS_registers_script_system_first:
  "\<exists>ecs0 :: ('w, 'q, 'a, 'i) ECS. NewECS now w = Inr ecs0 \<and>
     World ecs0 = w \<and> Time ecs0 = NewTime now \<and> ScriptSystem ecs0 = NewScriptSystem \<and>
     updaters ecs0 = [\<lparr>Updater = ScriptSystem_ptr, updater_Priority = 0\<rparr>] \<and>
     drawers ecs0 = [\<lparr>Drawer = ScriptSystem_ptr, drawer_Priority = 0, drawer_Image = None\<rparr>] \<and>
     (\<forall>cs :: ('q, 'a, 'i) call list.
        filter (\<lambda>u. updater_Priority u = 0) (updaters (run ecs0 cs)) =
          \<lparr>Updater = ScriptSystem_ptr, updater_Priority = 0\<rparr> #
          filter (\<lambda>u. updater_Priority u = 0) (updater_entries (registrations cs)) \<and>
        filter (\<lambda>d. drawer_Priority d = 0) (drawers (run ecs0 cs)) =
          \<lparr>Drawer = ScriptSystem_ptr, drawer_Priority = 0, drawer_Image = None\<rparr> #
          filter (\<lambda>d. drawer_Priority d = 0) (drawer_entries (registrations cs)))"
proof -
  let ?ecs0 = "\<lparr>World = w, Time = NewTime now,
          ScriptSystem = (NewScriptSystem :: ('q, 'a, 'i) ScriptSystem),
          updaters = [\<lparr>Updater = ScriptSystem_ptr, updater_Priority = 0\<rparr>],
          drawers = [\<lparr>Drawer = ScriptSystem_ptr, drawer_Priority = 0, drawer_Image = None\<rparr>]\<rparr>"
  have new: "NewECS now w = Inr ?ecs0"
    by (rule NewECS_returns)
  have "sorted_wrt (\<ge>) (map updater_Priority (updaters ?ecs0))"
    by simp
  then have us: "updaters (run ?ecs0 cs) =
      sortUpdaterEntries (updaters ?ecs0 @ updater_entries (registrations cs))" for cs
    by (rule run_updaters)
  have "sorted_wrt (\<ge>) (map drawer_Priority (drawers ?ecs0))"
    by simp
  then have ds: "drawers (run ?ecs0 cs) =
      sortDrawerEntries (drawers ?ecs0 @ drawer_entries (registrations cs))" for cs
    by (rule run_drawers)
  have "filter (\<lambda>u. updater_Priority u = 0) (updaters (run ?ecs0 cs)) =
          \<lparr>Updater = ScriptSystem_ptr, updater_Priority = 0\<rparr> #
          filter (\<lambda>u. updater_Priority u = 0) (updater_entries (registrations cs))" for cs
    unfolding us sortUpdaterEntries_def by (simp add: SliceStable_stable)
  moreover have "filter (\<lambda>d. drawer_Priority d = 0) (drawers (run ?ecs0 cs)) =
          \<lparr>Drawer = ScriptSystem_ptr, drawer_Priority = 0, drawer_Image = None\<rparr> #
          filter (\<lambda>d. drawer_Priority d = 0) (drawer_entries (registrations cs))" for cs
    unfolding ds sortDrawerEntries_def by (simp add: SliceStable_stable)
  ultimately show ?thesis
    using new by (intro exI [of _ ?ecs0]) simp
qed

text \<open>
  C7. \<open>AddScript\<close> changes nothing but the script subsystem: the update registry, the
  draw registry, the clock and the world are as before, the script subsystem is what its
  own \<open>AddScript\<close> makes of it, and the call panics exactly when that one does.
\<close>

theorem AddScript_only_delegates:
  "updaters (state_of (AddScript ecs q b opts)) = updaters ecs \<and>
   drawers (state_of (AddScript ecs q b opts)) = drawers ecs \<and>
   Time (state_of (AddScript ecs q b opts)) = Time ecs \<and>
   World (state_of (AddScript ecs q b opts)) = World ecs \<and>
   ScriptSystem (state_of (AddScript ecs q b opts)) =
     state_of (ScriptSystem_AddScript (ScriptSystem ecs) q b opts) \<and>
   isl (AddScript ecs q b opts) = isl (ScriptSystem_AddScript (ScriptSystem ecs) q b opts)"
  by (simp add: AddScript_def split: sum.splits prod.splits)



text \<open>
  C9. When a registry is sorted by priority, highest first, \<open>addUpdater\<close> (and
  \<open>addDrawer\<close>) splits it in two at one place and puts the new entry there: the entries
  before it are the old ones of greater or equal priority, the entries behind it the old
  ones of strictly lower priority, and the old entries keep their order.
\<close>

theorem insertion_keeps_order:
  "(sorted_wrt (\<ge>) (map updater_Priority (updaters ecs)) \<longrightarrow>
     (\<exists>pre post. updaters ecs = pre @ post \<and>
        updaters (addUpdater ecs u) = pre @ [u] @ post \<and>
        (\<forall>x\<in>set pre. updater_Priority x \<ge> updater_Priority u) \<and>
        (\<forall>x\<in>set post. updater_Priority x < updater_Priority u))) \<and>
   (sorted_wrt (\<ge>) (map drawer_Priority (drawers ecs)) \<longrightarrow>
     (\<exists>pre post. drawers ecs = pre @ post \<and>
        drawers (addDrawer ecs d) = pre @ [d] @ post \<and>
        (\<forall>x\<in>set pre. drawer_Priority x \<ge> drawer_Priority d) \<and>
        (\<forall>x\<in>set post. drawer_Priority x < drawer_Priority d)))"
proof (intro conjI impI)
  assume srt: "sorted_wrt (\<ge>) (map updater_Priority (updaters ecs))"
  let ?pre = "filter (\<lambda>x. updater_Priority x \<ge> updater_Priority u) (updaters ecs)"
  let ?post = "filter (\<lambda>x. updater_Priority x < updater_Priority u) (updaters ecs)"
  have "updaters ecs = ?pre @ ?post"
    using sorted_split_at [OF srt, of "updater_Priority u"] by simp
  moreover have "updaters (addUpdater ecs u) = ?pre @ [u] @ ?post"
    using sort_key_snoc_sorted [OF srt, of u]
    by (simp add: addUpdater_def sortUpdaterEntries_def SliceStable_sort_key)
  ultimately show "\<exists>pre post. updaters ecs = pre @ post \<and>
        updaters (addUpdater ecs u) = pre @ [u] @ post \<and>
        (\<forall>x\<in>set pre. updater_Priority x \<ge> updater_Priority u) \<and>
        (\<forall>x\<in>set post. updater_Priority x < updater_Priority u)"
    by (intro exI [of _ ?pre] exI [of _ ?post]) simp
next
  assume srt: "sorted_wrt (\<ge>) (map drawer_Priority (drawers ecs))"
  let ?pre = "filter (\<lambda>x. drawer_Priority x \<ge> drawer_Priority d) (drawers ecs)"
  let ?post = "filter (\<lambda>x. drawer_Priority x < drawer_Priority d) (drawers ecs)"
  have "drawers ecs = ?pre @ ?post"
    using sorted_split_at [OF srt, of "drawer_Priority d"] by simp
  moreover have "drawers (addDrawer ecs d) = ?pre @ [d] @ ?post"
    using sort_key_snoc_sorted [OF srt, of d]
    by (simp add: addDrawer_def sortDrawerEntries_def SliceStable_sort_key)
  ultimately show "\<exists>pre post. drawers ecs = pre @ post \<and>
        drawers (addDrawer ecs d) = pre @ [d] @ post \<and>
        (\<forall>x\<in>set pre. drawer_Priority x \<ge> drawer_Priority d) \<and>
        (\<forall>x\<in>set post. drawer_Priority x < drawer_Priority d)"
    by (intro exI [of _ ?pre] exI [of _ ?post]) simp
qed

theorem insertion_keeps_order_witness:
  "sorted_wrt (\<ge>) (map updater_Priority (updaters (run ex_ecs ex_program))) \<and>
   sorted_wrt (\<ge>) (map drawer_Priority (drawers (run ex_ecs ex_program))) \<and>
   (\<exists>pre post. updaters (run ex_ecs ex_program) = pre @ post \<and>
      updaters (addUpdater (run ex_ecs ex_program) \<lparr>Updater = Value 4, updater_Priority = 5\<rparr>) =
        pre @ [\<lparr>Updater = Value 4, updater_Priority = 5\<rparr>] @ post \<and>
      (\<forall>x\<in>set pre. updater_Priority x \<ge> 5) \<and> (\<forall>x\<in>set post. updater_Priority x < 5)) \<and>
   (\<exists>pre post. drawers (run ex_ecs ex_program) = pre @ post \<and>
      drawers (addDrawer (run ex_ecs ex_program)
          \<lparr>Drawer = Value 4, drawer_Priority = 5, drawer_Image = None\<rparr>) =
        pre @ [\<lparr>Drawer = Value 4, drawer_Priority = 5, drawer_Image = None\<rparr>] @ post \<and>
      (\<forall>x\<in>set pre. drawer_Priority x \<ge> 5) \<and> (\<forall>x\<in>set post. drawer_Priority x < 5))"
proof -
  have u: "sorted_wrt (\<ge>) (map updater_Priority (updaters (run ex_ecs ex_program)))"
    by (simp add: ex_program_updaters)
  have d: "sorted_wrt (\<ge>) (map drawer_Priority (drawers (run ex_ecs ex_program)))"
    by (simp add: ex_program_drawers)
  from insertion_keeps_order
    [of "run ex_ecs ex_program" "\<lparr>Updater = Value 4, updater_Priority = 5\<rparr>"
      "\<lparr>Drawer = Value 4, drawer_Priority = 5, drawer_Image = None\<rparr>"] u d
  show ?thesis
    by simp
qed


end
